theory Spec2Isabelle
  imports Main "HOL-Library.Sublist"
begin

section \<open>Strings\<close>

text \<open>
  A Python \<open>str\<close> is a sequence of code points. The code points modelled are 0..255
  (\<open>Latin c\<close>) and the three Greek sigmas: capital U+03A3, small U+03C3 and final
  U+03C2. A literal of the source is written \<open>lit ''...''\<close>.
\<close>

datatype cp = Latin char | CapitalSigma | SmallSigma | FinalSigma

type_synonym str = "cp list"

definition lit :: "string \<Rightarrow> str" where
  "lit s = map Latin s"

text \<open>
  The Unicode data of the code points 0..255: the lower-case mapping (A..Z and the
  capitals 192..214, 216..222 go to the code point 32 above them, every other one to
  itself), the property Cased, the property Case_Ignorable, and \<open>str.isspace\<close>.
\<close>

definition lower_char :: "char \<Rightarrow> char" where
  "lower_char c = (let n = (of_char c :: nat) in
     if (65 \<le> n \<and> n \<le> 90) \<or> (192 \<le> n \<and> n \<le> 214) \<or> (216 \<le> n \<and> n \<le> 222)
     then char_of (n + 32) else c)"

definition cased_char :: "char \<Rightarrow> bool" where
  "cased_char c = (let n = (of_char c :: nat) in
     (65 \<le> n \<and> n \<le> 90) \<or> (97 \<le> n \<and> n \<le> 122) \<or> n = 170 \<or> n = 181 \<or> n = 186
     \<or> (192 \<le> n \<and> n \<le> 214) \<or> (216 \<le> n \<and> n \<le> 246) \<or> (248 \<le> n \<and> n \<le> 255))"

definition case_ignorable_char :: "char \<Rightarrow> bool" where
  "case_ignorable_char c =
     (of_char c \<in> set [39, 46, 58, 94, 96, 168, 173, 175, 180, 183, 184 :: nat])"

definition isspace_char :: "char \<Rightarrow> bool" where
  "isspace_char c =
     (of_char c \<in> set [9, 10, 11, 12, 13, 28, 29, 30, 31, 32, 133, 160 :: nat])"

text \<open>The same data for a code point: the sigmas are cased letters and not spaces.\<close>

fun lower_cp :: "cp \<Rightarrow> cp" where
  "lower_cp (Latin c) = Latin (lower_char c)"
| "lower_cp CapitalSigma = SmallSigma"
| "lower_cp SmallSigma = SmallSigma"
| "lower_cp FinalSigma = FinalSigma"

fun cased :: "cp \<Rightarrow> bool" where
  "cased (Latin c) = cased_char c"
| "cased _ = True"

fun case_ignorable :: "cp \<Rightarrow> bool" where
  "case_ignorable (Latin c) = case_ignorable_char c"
| "case_ignorable _ = False"

fun isspace :: "cp \<Rightarrow> bool" where
  "isspace (Latin c) = isspace_char c"
| "isspace _ = False"

text \<open>
  \<open>str.lower\<close> lower-cases each code point by its mapping, except the capital sigma,
  whose image depends on its neighbours in the text being lower-cased: it becomes the
  final sigma when, skipping case-ignorable code points, a cased code point stands
  before it and none stands after it, and the small sigma otherwise. \<open>before\<close> holds
  the code points to the left, nearest first.
\<close>

definition handle_capital_sigma :: "str \<Rightarrow> str \<Rightarrow> cp" where
  "handle_capital_sigma before after =
     (let final_sigma =
            (case dropWhile case_ignorable before of [] \<Rightarrow> False | c # _ \<Rightarrow> cased c)
      in if final_sigma
            \<and> (case dropWhile case_ignorable after of [] \<Rightarrow> True | c # _ \<Rightarrow> \<not> cased c)
         then FinalSigma else SmallSigma)"

fun lower_from :: "str \<Rightarrow> str \<Rightarrow> str" where
  "lower_from before [] = []"
| "lower_from before (c # rest) =
     (if c = CapitalSigma then handle_capital_sigma before rest else lower_cp c)
       # lower_from (c # before) rest"

definition lower :: "str \<Rightarrow> str" where
  "lower s = lower_from [] s"

text \<open>\<open>str.strip\<close> removes the code points that are spaces from both ends.\<close>

definition lstrip :: "str \<Rightarrow> str" where
  "lstrip s = dropWhile isspace s"

definition rstrip :: "str \<Rightarrow> str" where
  "rstrip s = rev (dropWhile isspace (rev s))"

definition strip :: "str \<Rightarrow> str" where
  "strip s = rstrip (lstrip s)"

text \<open>\<open>s.startswith(p)\<close>\<close>

fun startswith :: "str \<Rightarrow> str \<Rightarrow> bool" where
  "startswith s [] = True"
| "startswith [] (p # ps) = False"
| "startswith (c # cs) (p # ps) = (c = p \<and> startswith cs ps)"

text \<open>\<open>p in s\<close> for strings: \<open>p\<close> occurs in \<open>s\<close> as a contiguous run.\<close>

fun contains :: "str \<Rightarrow> str \<Rightarrow> bool" where
  "contains [] p = (p = [])"
| "contains (c # cs) p = (startswith (c # cs) p \<or> contains cs p)"

section \<open>Exceptions (core/exceptions.py)\<close>

text \<open>
  The class of a raised exception and the text \<open>str(e)\<close> gives. \<open>VoiceAssistantError\<close>
  and its six subclasses are the classes of core/exceptions.py; \<open>TypeError\<close> and
  \<open>OtherException\<close> stand for the built-in classes below \<open>Exception\<close>;
  \<open>KeyboardInterrupt\<close> and \<open>SystemExit\<close> derive from \<open>BaseException\<close> only, so
  an \<open>except Exception\<close> clause does not match them.
\<close>

datatype exc_class =
    KeyboardInterrupt
  | SystemExit
  | OtherException
  | TypeError
  | VoiceAssistantError
  | ConfigurationError
  | SpeechRecognitionError
  | CommandExecutionError
  | DeviceConnectionError
  | ApplicationLaunchError
  | SystemCommandError

record py_exception =
  exc_class :: exc_class
  message :: str

fun is_Exception :: "exc_class \<Rightarrow> bool" where
  "is_Exception KeyboardInterrupt = False"
| "is_Exception SystemExit = False"
| "is_Exception _ = True"

definition raise_exc :: "exc_class \<Rightarrow> str \<Rightarrow> py_exception" where
  "raise_exc c m = \<lparr>exc_class = c, message = m\<rparr>"

section \<open>Configuration model (config/settings.py)\<close>

record SmartDevice =
  name :: str
  device_id :: str
  ip_address :: str
  local_key :: str
  device_type :: str

text \<open>
  \<open>__post_init__\<close> of \<open>SmartDevice\<close>: \<open>all([...])\<close> is false as soon as one of the four
  strings is empty (the only string that is not truthy).
\<close>

definition SmartDevice_post_init :: "SmartDevice \<Rightarrow> py_exception + SmartDevice" where
  "SmartDevice_post_init d =
     (if \<not> list_all (\<lambda>s. s \<noteq> []) [name d, device_id d, ip_address d, local_key d]
      then Inl (raise_exc ConfigurationError (lit ''All device fields are required''))
      else Inr d)"

text \<open>The constructor the dataclass generates: it stores the fields, then validates.\<close>

definition SmartDevice_new ::
  "str \<Rightarrow> str \<Rightarrow> str \<Rightarrow> str \<Rightarrow> str \<Rightarrow> py_exception + SmartDevice" where
  "SmartDevice_new n i a k t =
     SmartDevice_post_init
       \<lparr>name = n, device_id = i, ip_address = a, local_key = k, device_type = t\<rparr>"

record AssistantSettings =
  speech_timeout :: int
  phrase_time_limit :: int
  language :: str
  log_level :: str
  screenshots_folder :: str
  wake_word :: str

definition AssistantSettings_post_init :: "AssistantSettings \<Rightarrow> py_exception + AssistantSettings" where
  "AssistantSettings_post_init s =
     (if speech_timeout s \<le> 0 \<or> phrase_time_limit s \<le> 0
      then Inl (raise_exc ConfigurationError (lit ''Timeout values must be positive''))
      else if log_level s \<notin> set [lit ''DEBUG'', lit ''INFO'', lit ''WARNING'', lit ''ERROR'', lit ''CRITICAL'']
      then Inl (raise_exc ConfigurationError (lit ''Invalid log level''))
      else Inr s)"

record Configuration =
  smart_devices :: "SmartDevice list"
  settings :: AssistantSettings
  application_shortcuts :: "str \<rightharpoonup> str"

text \<open>
  The structured external form: the dictionary \<open>to_dict\<close> builds and \<open>from_dict\<close> reads.
  A dictionary is modelled by one optional entry per key the code knows, \<open>None\<close> for a
  key that is absent, and every value has the type its dataclass field is annotated
  with. A dictionary with other keys or with values of other types is outside the model.
\<close>

record device_dict =
  d_name :: "str option"
  d_device_id :: "str option"
  d_ip_address :: "str option"
  d_local_key :: "str option"
  d_device_type :: "str option"

record settings_dict =
  d_speech_timeout :: "int option"
  d_phrase_time_limit :: "int option"
  d_language :: "str option"
  d_log_level :: "str option"
  d_screenshots_folder :: "str option"
  d_wake_word :: "str option"

record config_dict =
  d_smart_devices :: "device_dict list option"
  d_settings :: "settings_dict option"
  d_application_shortcuts :: "(str \<rightharpoonup> str) option"

text \<open>\<open>dict.get(key, default)\<close> and a keyword argument with a default value.\<close>

definition get_default :: "'a option \<Rightarrow> 'a \<Rightarrow> 'a" where
  "get_default v d = (case v of None \<Rightarrow> d | Some x \<Rightarrow> x)"

text \<open>
  \<open>SmartDevice(**device)\<close>: a call that lacks one of the four required arguments raises
  \<open>TypeError\<close> before \<open>__post_init__\<close> runs; \<open>device_type\<close> defaults to \<open>"outlet"\<close>.
  The text of that \<open>TypeError\<close> is the interpreter's and is the parameter \<open>te\<close>.
\<close>

definition SmartDevice_from_kwargs :: "str \<Rightarrow> device_dict \<Rightarrow> py_exception + SmartDevice" where
  "SmartDevice_from_kwargs te device =
     (case (d_name device, d_device_id device, d_ip_address device, d_local_key device) of
        (Some n, Some i, Some a, Some k) \<Rightarrow>
          SmartDevice_new n i a k (get_default (d_device_type device) (lit ''outlet''))
      | _ \<Rightarrow> Inl (raise_exc TypeError te))"

text \<open>The list comprehension over \<open>devices_data\<close>: the first exception ends it.\<close>

fun SmartDevice_list :: "str \<Rightarrow> device_dict list \<Rightarrow> py_exception + SmartDevice list" where
  "SmartDevice_list te [] = Inr []"
| "SmartDevice_list te (device # rest) =
     (case SmartDevice_from_kwargs te device of
        Inl e \<Rightarrow> Inl e
      | Inr d \<Rightarrow> (case SmartDevice_list te rest of
                   Inl e \<Rightarrow> Inl e
                 | Inr ds \<Rightarrow> Inr (d # ds)))"

text \<open>\<open>AssistantSettings(**settings_data)\<close>, with the defaults of the dataclass.\<close>

definition AssistantSettings_from_kwargs :: "settings_dict \<Rightarrow> py_exception + AssistantSettings" where
  "AssistantSettings_from_kwargs settings_data =
     AssistantSettings_post_init
       \<lparr>speech_timeout = get_default (d_speech_timeout settings_data) 5,
        phrase_time_limit = get_default (d_phrase_time_limit settings_data) 5,
        language = get_default (d_language settings_data) (lit ''id-ID''),
        log_level = get_default (d_log_level settings_data) (lit ''INFO''),
        screenshots_folder = get_default (d_screenshots_folder settings_data) (lit ''screenshots''),
        wake_word = get_default (d_wake_word settings_data) (lit ''peter'')\<rparr>"

definition empty_settings_dict :: settings_dict where
  "empty_settings_dict =
     \<lparr>d_speech_timeout = None, d_phrase_time_limit = None, d_language = None,
      d_log_level = None, d_screenshots_folder = None, d_wake_word = None\<rparr>"

text \<open>
  \<open>Configuration.from_dict\<close>: a \<open>TypeError\<close> raised inside the \<open>try\<close> comes out as a
  \<open>ConfigurationError\<close>; every other exception passes through unchanged.
\<close>

definition except_TypeError :: "py_exception + 'a \<Rightarrow> py_exception + 'a" where
  "except_TypeError x =
     (case x of
        Inl e \<Rightarrow>
          if exc_class e = TypeError
          then Inl (raise_exc ConfigurationError (lit ''Invalid configuration format: '' @ message e))
          else Inl e
      | Inr v \<Rightarrow> Inr v)"

definition from_dict :: "str \<Rightarrow> config_dict \<Rightarrow> py_exception + Configuration" where
  "from_dict te data =
     except_TypeError
       (let devices_data = get_default (d_smart_devices data) []
        in case SmartDevice_list te devices_data of
             Inl e \<Rightarrow> Inl e
           | Inr devices \<Rightarrow>
               (let settings_data = get_default (d_settings data) empty_settings_dict
                in case AssistantSettings_from_kwargs settings_data of
                     Inl e \<Rightarrow> Inl e
                   | Inr s \<Rightarrow>
                       (let app_shortcuts = get_default (d_application_shortcuts data) Map.empty
                        in Inr \<lparr>smart_devices = devices, settings = s,
                                application_shortcuts = app_shortcuts\<rparr>)))"

definition to_dict :: "Configuration \<Rightarrow> config_dict" where
  "to_dict c =
     \<lparr>d_smart_devices = Some (map (\<lambda>device.
          \<lparr>d_name = Some (name device),
           d_device_id = Some (device_id device),
           d_ip_address = Some (ip_address device),
           d_local_key = Some (local_key device),
           d_device_type = Some (device_type device)\<rparr>) (smart_devices c)),
      d_settings = Some
          \<lparr>d_speech_timeout = Some (speech_timeout (settings c)),
           d_phrase_time_limit = Some (phrase_time_limit (settings c)),
           d_language = Some (language (settings c)),
           d_log_level = Some (log_level (settings c)),
           d_screenshots_folder = Some (screenshots_folder (settings c)),
           d_wake_word = None\<rparr>,
      d_application_shortcuts = Some (application_shortcuts c)\<rparr>"

text \<open>
  \<open>Configuration.validate\<close> runs every device's and the settings' \<open>__post_init__\<close>; a
  configuration is valid when none of them raises.
\<close>

fun SmartDevice_list_check :: "SmartDevice list \<Rightarrow> py_exception + unit" where
  "SmartDevice_list_check [] = Inr ()"
| "SmartDevice_list_check (device # rest) =
     (case SmartDevice_post_init device of
        Inl e \<Rightarrow> Inl e
      | Inr d \<Rightarrow> SmartDevice_list_check rest)"

definition validate :: "Configuration \<Rightarrow> py_exception + unit" where
  "validate c =
     (case SmartDevice_list_check (smart_devices c) of
        Inl e \<Rightarrow> Inl e
      | Inr u \<Rightarrow> (case AssistantSettings_post_init (settings c) of
                   Inl e \<Rightarrow> Inl e
                 | Inr s \<Rightarrow> Inr ()))"


section \<open>Command registry (commands/base.py)\<close>

text \<open>
  A handler is a value of an arbitrary type \<open>'h\<close>; equality on \<open>'h\<close> is the equality
  that \<open>in\<close> and \<open>list.remove\<close> use. The two operations of the \<open>Command\<close> interface are
  passed to the registry's functions: \<open>can_handle h s\<close> is a pure predicate, and
  \<open>execute h s ctx w\<close> runs in a world \<open>w\<close> and gives back either the exception raised
  or the value returned, with the world after the call. Log output of the registry is
  left out.
\<close>

record 'h CommandRegistry =
  commands :: "'h list"
  wake_word :: str

definition CommandRegistry_init :: "str \<Rightarrow> 'h CommandRegistry" where
  "CommandRegistry_init w = \<lparr>commands = [], wake_word = lower w\<rparr>"

definition register :: "'h \<Rightarrow> 'h CommandRegistry \<Rightarrow> 'h CommandRegistry" where
  "register command r = r\<lparr>commands := commands r @ [command]\<rparr>"

definition unregister :: "'h \<Rightarrow> 'h CommandRegistry \<Rightarrow> 'h CommandRegistry" where
  "unregister command r =
     (if command \<in> set (commands r) then r\<lparr>commands := remove1 command (commands r)\<rparr>
      else r)"

definition has_wake_word :: "'h CommandRegistry \<Rightarrow> str \<Rightarrow> bool" where
  "has_wake_word r command =
     (let command_lower = strip (lower command)
      in startswith command_lower (wake_word r))"

definition remove_wake_word :: "'h CommandRegistry \<Rightarrow> str \<Rightarrow> str" where
  "remove_wake_word r command =
     (let command_lower = strip (lower command)
      in if startswith command_lower (wake_word r)
         then strip (drop (length (wake_word r)) command_lower)
         else command_lower)"

text \<open>The \<open>for\<close> loop of \<open>get_handler\<close>: the first handler that accepts the command.\<close>

fun first_handler :: "('h \<Rightarrow> str \<Rightarrow> bool) \<Rightarrow> 'h list \<Rightarrow> str \<Rightarrow> 'h option" where
  "first_handler can_handle [] actual_command = None"
| "first_handler can_handle (cmd_handler # rest) actual_command =
     (if can_handle cmd_handler actual_command then Some cmd_handler
      else first_handler can_handle rest actual_command)"

definition get_handler ::
  "('h \<Rightarrow> str \<Rightarrow> bool) \<Rightarrow> 'h CommandRegistry \<Rightarrow> str \<Rightarrow> 'h option" where
  "get_handler can_handle r command =
     (if \<not> has_wake_word r command then None
      else first_handler can_handle (commands r) (remove_wake_word r command))"

definition execute_command ::
  "('h \<Rightarrow> str \<Rightarrow> bool) \<Rightarrow> ('h \<Rightarrow> str \<Rightarrow> 'c option \<Rightarrow> 'w \<Rightarrow> (py_exception + str) \<times> 'w) \<Rightarrow>
   'h CommandRegistry \<Rightarrow> str \<Rightarrow> 'c option \<Rightarrow> 'w \<Rightarrow> (py_exception + str) \<times> 'w" where
  "execute_command can_handle execute r command context w =
     (if \<not> has_wake_word r command
      then (Inl (raise_exc CommandExecutionError
                  (lit ''Command must start with wake word '' @ lit [CHR 0x27] @ wake_word r
                     @ lit [CHR 0x27] @ lit '': '' @ command)), w)
      else case get_handler can_handle r command of
        None \<Rightarrow> (Inl (raise_exc CommandExecutionError
                        (lit ''No handler found for command: '' @ command)), w)
      | Some handler \<Rightarrow>
          (case execute handler (remove_wake_word r command) context w of
             (Inr result, w') \<Rightarrow> (Inr result, w')
           | (Inl e, w') \<Rightarrow>
               if is_Exception (exc_class e)
               then (Inl (raise_exc CommandExecutionError
                            (lit ''Failed to execute command: '' @ message e)), w')
               else (Inl e, w')))"

section \<open>Orchestrator (core/assistant.py)\<close>

text \<open>
  \<open>_process_command_safely\<close>. The registry's \<open>execute_command\<close> is the injected
  dependency \<open>exec_cmd\<close>; the step appends to the log and gives back the exception that
  leaves it, \<open>None\<close> when it returns normally. A result is truthy when it is not the
  empty string.
\<close>

datatype level = INFO | ERROR

definition process_command_safely ::
  "(str \<Rightarrow> 'w \<Rightarrow> (py_exception + str) \<times> 'w) \<Rightarrow> str \<Rightarrow> 'w \<Rightarrow> (level \<times> str) list
   \<Rightarrow> py_exception option \<times> 'w \<times> (level \<times> str) list" where
  "process_command_safely exec_cmd command w log =
     (let log1 = log @ [(INFO, lit ''Processing command: '' @ command)]
      in case exec_cmd command w of
           (Inr result, w') \<Rightarrow>
             (None, w',
              log1 @ [if result \<noteq> []
                      then (INFO, lit ''Command executed successfully: '' @ result)
                      else (INFO, lit ''Command executed successfully'')])
         | (Inl e, w') \<Rightarrow>
             if exc_class e = CommandExecutionError
             then (None, w', log1 @ [(ERROR, lit ''Command execution error: '' @ message e)])
             else if is_Exception (exc_class e)
             then (None, w',
                   log1 @ [(ERROR, lit ''Unexpected error processing command '' @ lit [CHR 0x27]
                                     @ command @ lit [CHR 0x27] @ lit '': '' @ message e)])
             else (Some e, w', log1))"

text \<open>
  The call the step makes, \<open>self.command_registry.execute_command(command)\<close>: the
  context is left at its default \<open>None\<close>.
\<close>

definition registry_call ::
  "('h \<Rightarrow> str \<Rightarrow> bool) \<Rightarrow> ('h \<Rightarrow> str \<Rightarrow> 'c option \<Rightarrow> 'w \<Rightarrow> (py_exception + str) \<times> 'w) \<Rightarrow>
   'h CommandRegistry \<Rightarrow> str \<Rightarrow> 'w \<Rightarrow> (py_exception + str) \<times> 'w" where
  "registry_call can_handle execute r command w =
     execute_command can_handle execute r command None w"

text \<open>
  \<open>_run_main_loop\<close>. The assistant holds the flag \<open>running\<close>; the world and the log
  stand for what the command threads and the loggers write. The speech service is a
  list of the outcomes of successive \<open>listen_for_command\<close> calls, each an exception
  raised or the optional text returned; the loop takes one outcome per turn, and when
  the list is used up it is still listening.

  \<open>threading.Thread(target=self._process_command_safely, args=(command,)).start()\<close>
  runs the step in a thread of its own. Here the step runs to its end before the loop
  goes on, so the interleaving of the thread with the loop is not modelled; what it
  writes to the world and the log is kept, and an exception that leaves the step ends
  that thread only: it is not raised in the loop.
\<close>

record 'w VoiceAssistant =
  running :: bool
  world :: 'w
  logged :: "(level \<times> str) list"

definition start_command_thread ::
  "(str \<Rightarrow> 'w \<Rightarrow> (py_exception + str) \<times> 'w) \<Rightarrow> str \<Rightarrow> 'w VoiceAssistant \<Rightarrow> 'w VoiceAssistant" where
  "start_command_thread exec_cmd command a =
     (case process_command_safely exec_cmd command (world a) (logged a) of
        (escaped, w', log') \<Rightarrow> a\<lparr>world := w', logged := log'\<rparr>)"

text \<open>
  How the loop ends: still listening with all outcomes taken, left normally because
  \<open>running\<close> was false, or left by an exception.
\<close>

datatype 'w loop_result =
    Listening "'w VoiceAssistant"
  | Returned "'w VoiceAssistant"
  | Raised py_exception "'w VoiceAssistant"

fun main_loop ::
  "(str \<Rightarrow> 'w \<Rightarrow> (py_exception + str) \<times> 'w) \<Rightarrow> (py_exception + str option) list
   \<Rightarrow> 'w VoiceAssistant \<Rightarrow> 'w loop_result" where
  "main_loop exec_cmd [] a = (if running a then Listening a else Returned a)"
| "main_loop exec_cmd (heard # rest) a =
     (if \<not> running a then Returned a
      else case heard of
        Inl e \<Rightarrow>
          if is_Exception (exc_class e)
          then main_loop exec_cmd rest
                 (a\<lparr>logged := logged a @ [(ERROR, lit ''Error in main loop: '' @ message e)]\<rparr>)
          else Raised e a
      | Inr None \<Rightarrow> main_loop exec_cmd rest a
      | Inr (Some command) \<Rightarrow>
          if command \<noteq> [] \<and> running a
          then main_loop exec_cmd rest (start_command_thread exec_cmd command a)
          else main_loop exec_cmd rest a)"

definition run_main_loop ::
  "(str \<Rightarrow> 'w \<Rightarrow> (py_exception + str) \<times> 'w) \<Rightarrow> (py_exception + str option) list
   \<Rightarrow> 'w VoiceAssistant \<Rightarrow> 'w loop_result" where
  "run_main_loop exec_cmd heard a =
     main_loop exec_cmd heard
       (a\<lparr>logged := logged a
            @ [(INFO, lit ''Voice Assistant main loop started. Listening for commands...'')]\<rparr>)"

text \<open>The loop has not ended and the assistant is running.\<close>

fun still_listening :: "'w loop_result \<Rightarrow> bool" where
  "still_listening (Listening a) = running a"
| "still_listening (Returned a) = False"
| "still_listening (Raised e a) = False"

text \<open>An outcome of \<open>listen_for_command\<close> that is a value or an instance of \<open>Exception\<close>.\<close>

fun value_or_Exception :: "py_exception + 'a \<Rightarrow> bool" where
  "value_or_Exception (Inl e) = is_Exception (exc_class e)"
| "value_or_Exception (Inr v) = True"

section \<open>Reachable registry states\<close>

text \<open>
  The states of a registry built with \<open>CommandRegistry(w0)\<close> and then changed only by
  \<open>register\<close> and \<open>unregister\<close>, the two operations that write to it.
\<close>

inductive reachable :: "str \<Rightarrow> 'h CommandRegistry \<Rightarrow> bool" for w0 :: str where
  reachable_init: "reachable w0 (CommandRegistry_init w0)"
| reachable_register: "reachable w0 r \<Longrightarrow> reachable w0 (register h r)"
| reachable_unregister: "reachable w0 r \<Longrightarrow> reachable w0 (unregister h r)"

section \<open>Example handlers and configurations\<close>

text \<open>
  Two handlers whose \<open>can_handle\<close> is substring containment, as the handlers of the
  repository have it: \<open>H1\<close> accepts a command that contains \<open>lampu\<close>, \<open>H2\<close> one that
  contains \<open>lampu nyala\<close>. Their \<open>execute\<close> records the call in the world, a list of
  the calls made; \<open>H1\<close> then raises a \<open>DeviceConnectionError\<close> and \<open>H2\<close> returns a
  text.
\<close>

datatype example_handler = H1 | H2

fun example_can_handle :: "example_handler \<Rightarrow> str \<Rightarrow> bool" where
  "example_can_handle H1 s = contains s (lit ''lampu'')"
| "example_can_handle H2 s = contains s (lit ''lampu nyala'')"

fun example_execute ::
  "example_handler \<Rightarrow> str \<Rightarrow> unit option \<Rightarrow> (example_handler \<times> str) list
   \<Rightarrow> (py_exception + str) \<times> (example_handler \<times> str) list" where
  "example_execute H1 s ctx calls =
     (Inl (raise_exc DeviceConnectionError (lit ''Device not found'')), calls @ [(H1, s)])"
| "example_execute H2 s ctx calls = (Inr (lit ''Lamp on''), calls @ [(H2, s)])"

definition example_registry :: "example_handler CommandRegistry" where
  "example_registry = register H2 (register H1 (CommandRegistry_init (lit ''peter'')))"

text \<open>
  A registry with \<open>H2\<close> alone, an \<open>execute\<close> that ends with \<open>sys.exit()\<close>, which
  raises \<open>SystemExit\<close>, and a \<open>can_handle\<close> that looks for the small sigma.
\<close>

definition lamp_registry :: "example_handler CommandRegistry" where
  "lamp_registry = register H2 (CommandRegistry_init (lit ''peter''))"

definition exiting_execute ::
  "example_handler \<Rightarrow> str \<Rightarrow> unit option \<Rightarrow> (example_handler \<times> str) list
   \<Rightarrow> (py_exception + str) \<times> (example_handler \<times> str) list" where
  "exiting_execute h s ctx calls = (Inl (raise_exc SystemExit []), calls @ [(h, s)])"

definition sigma_can_handle :: "example_handler \<Rightarrow> str \<Rightarrow> bool" where
  "sigma_can_handle h s = contains s [SmallSigma]"

text \<open>A configuration with default settings except for the wake word \<open>jarvis\<close>.\<close>

definition jarvis_config :: Configuration where
  "jarvis_config =
     \<lparr>smart_devices =
        [\<lparr>name = lit ''Smart Lamp'', device_id = lit ''id1'', ip_address = lit ''192.168.1.101'',
          local_key = lit ''key1'', device_type = lit ''light''\<rparr>],
      settings =
        \<lparr>speech_timeout = 5, phrase_time_limit = 5, language = lit ''id-ID'',
         log_level = lit ''INFO'', screenshots_folder = lit ''screenshots'',
         wake_word = lit ''jarvis''\<rparr>,
      application_shortcuts = [(lit ''notepad'') \<mapsto> lit ''notepad.exe'']\<rparr>"

section \<open>Facts about literals\<close>

lemma lit_Nil [simp]: "lit [] = []"
  by (simp add: lit_def)

lemma lit_Cons: "lit (c # s) = Latin c # lit s"
  by (simp add: lit_def)

lemma lit_append [simp]: "lit a @ lit b = lit (a @ b)"
  by (simp add: lit_def)

lemma lit_append_assoc [simp]: "lit a @ lit b @ x = lit (a @ b) @ x"
  by (simp add: lit_def)

lemma lit_eq_iff [simp]: "lit a = lit b \<longleftrightarrow> a = b"
  by (simp add: lit_def inj_on_def)

lemma lit_eq_Nil [simp]: "lit a = [] \<longleftrightarrow> a = []"
  by (simp add: lit_def)

lemma length_lit [simp]: "length (lit s) = length s"
  by (simp add: lit_def)

lemma drop_lit [simp]: "drop n (lit s) = lit (drop n s)"
  by (simp add: lit_def drop_map)

lemma startswith_lit [simp]: "startswith (lit s) (lit p) = prefix p s"
proof (induction p arbitrary: s)
  case Nil
  show ?case by simp
next
  case (Cons c p)
  then show ?case by (cases s) (auto simp: lit_Cons)
qed

lemma Latin_lit [simp]: "Latin c # lit s = lit (c # s)"
  by (simp add: lit_def)

lemma no_sigma_lit [simp]: "CapitalSigma \<notin> set (lit s)"
  by (auto simp: lit_def)

section \<open>Facts about strings and the first-match loop\<close>

lemma lower_char_idem: "lower_char (lower_char c) = lower_char c"
  apply (simp add: lower_char_def Let_def)
  done

lemma lower_cp_idem: "lower_cp (lower_cp c) = lower_cp c"
  by (cases c) (simp_all add: lower_char_idem)

lemma handle_capital_sigma_cases:
  "handle_capital_sigma before after = FinalSigma \<or> handle_capital_sigma before after = SmallSigma"
  by (simp add: handle_capital_sigma_def Let_def)

lemma lower_cp_not_capital: "CapitalSigma \<noteq> lower_cp c"
  by (cases c) simp_all

text \<open>Without a capital sigma, lower-casing is the code-point mapping applied throughout.\<close>

lemma lower_from_map: "CapitalSigma \<notin> set s \<Longrightarrow> lower_from before s = map lower_cp s"
  by (induction s arbitrary: before) auto

lemma lower_map: "CapitalSigma \<notin> set s \<Longrightarrow> lower s = map lower_cp s"
  by (simp add: lower_def lower_from_map)

lemma lower_from_no_capital: "CapitalSigma \<notin> set (lower_from before s)"
proof (induction s arbitrary: before)
  case Nil
  show ?case by simp
next
  case (Cons c s)
  have "handle_capital_sigma before s \<noteq> CapitalSigma"
    using handle_capital_sigma_cases [of before s] by auto
  with Cons show ?case by (simp add: lower_cp_not_capital)
qed

lemma map_lower_cp_lower_from: "map lower_cp (lower_from before s) = lower_from before s"
proof (induction s arbitrary: before)
  case Nil
  show ?case by simp
next
  case (Cons c s)
  have "lower_cp (handle_capital_sigma before s) = handle_capital_sigma before s"
    using handle_capital_sigma_cases [of before s] by auto
  with Cons show ?case by (simp add: lower_cp_idem)
qed

lemma lower_idem: "lower (lower s) = lower s"
proof -
  have "CapitalSigma \<notin> set (lower s)" by (simp add: lower_def lower_from_no_capital)
  then have "lower (lower s) = map lower_cp (lower s)" by (rule lower_map)
  then show ?thesis by (simp add: lower_def map_lower_cp_lower_from)
qed

lemma startswith_iff: "startswith s p \<longleftrightarrow> (\<exists>r. s = p @ r)"
  by (induction s p rule: startswith.induct) auto

lemma startswith_append: "startswith (p @ r) p"
  by (simp add: startswith_iff)

lemma contains_append: "contains (pre @ m) m"
proof (induction pre)
  case Nil
  show ?case by (cases m) (simp_all add: startswith_iff)
next
  case (Cons a pre)
  then show ?case by simp
qed

lemma contains_iff: "contains s p \<longleftrightarrow> (\<exists>a b. s = a @ p @ b)"
proof (induction s)
  case Nil
  then show ?case by auto
next
  case (Cons c cs)
  show ?case
  proof
    assume "contains (c # cs) p"
    then consider "startswith (c # cs) p" | "contains cs p" by auto
    then show "\<exists>a b. c # cs = a @ p @ b"
    proof cases
      case 1
      then obtain r where "c # cs = p @ r" by (auto simp: startswith_iff)
      then have "c # cs = [] @ p @ r" by simp
      then show ?thesis by blast
    next
      case 2
      with Cons obtain a b where "cs = a @ p @ b" by auto
      then have "c # cs = (c # a) @ p @ b" by simp
      then show ?thesis by blast
    qed
  next
    assume "\<exists>a b. c # cs = a @ p @ b"
    then obtain a b where ab: "c # cs = a @ p @ b" by auto
    show "contains (c # cs) p"
    proof (cases a)
      case Nil
      with ab have "startswith (c # cs) p" by (simp add: startswith_iff)
      then show ?thesis by simp
    next
      case (Cons x xs)
      with ab have "cs = xs @ p @ b" by simp
      with Cons.IH have "contains cs p" by blast
      then show ?thesis by simp
    qed
  qed
qed

lemma first_handler_None:
  "first_handler ch hs s = None \<longleftrightarrow> (\<forall>h \<in> set hs. \<not> ch h s)"
  by (induction hs) auto

lemma first_handler_Some:
  "first_handler ch hs s = Some h \<longleftrightarrow>
     (\<exists>pre post. hs = pre @ h # post \<and> ch h s \<and> (\<forall>g \<in> set pre. \<not> ch g s))"
proof (induction hs)
  case Nil
  then show ?case by simp
next
  case (Cons a hs)
  show ?case
  proof (cases "ch a s")
    case True
    show ?thesis
    proof
      assume "first_handler ch (a # hs) s = Some h"
      with True have "a = h" by simp
      with True have "a # hs = [] @ h # hs \<and> ch h s \<and> (\<forall>g \<in> set []. \<not> ch g s)" by simp
      then show "\<exists>pre post. a # hs = pre @ h # post \<and> ch h s \<and> (\<forall>g \<in> set pre. \<not> ch g s)"
        by blast
    next
      assume "\<exists>pre post. a # hs = pre @ h # post \<and> ch h s \<and> (\<forall>g \<in> set pre. \<not> ch g s)"
      then obtain pre post where p: "a # hs = pre @ h # post" "ch h s" "\<forall>g \<in> set pre. \<not> ch g s"
        by blast
      from p True have "pre = []" by (cases pre) auto
      with p have "a = h" by simp
      with True show "first_handler ch (a # hs) s = Some h" by simp
    qed
  next
    case False
    have "(\<exists>pre post. a # hs = pre @ h # post \<and> ch h s \<and> (\<forall>g \<in> set pre. \<not> ch g s))
          \<longleftrightarrow> (\<exists>pre post. hs = pre @ h # post \<and> ch h s \<and> (\<forall>g \<in> set pre. \<not> ch g s))"
    proof
      assume "\<exists>pre post. a # hs = pre @ h # post \<and> ch h s \<and> (\<forall>g \<in> set pre. \<not> ch g s)"
      then obtain pre post where p: "a # hs = pre @ h # post" "ch h s" "\<forall>g \<in> set pre. \<not> ch g s"
        by blast
      from p False obtain pre' where "pre = a # pre'" by (cases pre) auto
      with p have "hs = pre' @ h # post \<and> ch h s \<and> (\<forall>g \<in> set pre'. \<not> ch g s)" by simp
      then show "\<exists>pre post. hs = pre @ h # post \<and> ch h s \<and> (\<forall>g \<in> set pre. \<not> ch g s)" by blast
    next
      assume "\<exists>pre post. hs = pre @ h # post \<and> ch h s \<and> (\<forall>g \<in> set pre. \<not> ch g s)"
      then obtain pre post where p: "hs = pre @ h # post" "ch h s" "\<forall>g \<in> set pre. \<not> ch g s"
        by blast
      with False have "a # hs = (a # pre) @ h # post \<and> ch h s \<and> (\<forall>g \<in> set (a # pre). \<not> ch g s)"
        by simp
      then show "\<exists>pre post. a # hs = pre @ h # post \<and> ch h s \<and> (\<forall>g \<in> set pre. \<not> ch g s)" by blast
    qed
    with False Cons.IH show ?thesis by simp
  qed
qed

text \<open>The wake word of a reachable registry.\<close>

lemma reachable_wake_word: "reachable w0 r \<Longrightarrow> CommandRegistry.wake_word r = lower w0"
  by (induction rule: reachable.induct)
     (simp_all add: CommandRegistry_init_def register_def unregister_def)

text \<open>Stripping.\<close>

lemma rstrip_append:
  "rstrip (a @ b) = (if \<forall>c \<in> set b. isspace c then rstrip a else a @ rstrip b)"
  by (simp add: rstrip_def dropWhile_append)

lemma rstrip_append_space:
  "\<forall>c \<in> set b. isspace c \<Longrightarrow> rstrip (a @ b) = rstrip a"
  by (simp add: rstrip_append)

lemma rstrip_append_nonspace:
  "\<not> (\<forall>c \<in> set b. isspace c) \<Longrightarrow> rstrip (a @ b) = a @ rstrip b"
  using rstrip_append [of a b] by (simp only: if_False)

lemma rstrip_decomp: "\<exists>ys. x = rstrip x @ ys \<and> (\<forall>c \<in> set ys. isspace c)"
proof -
  have "rev x = takeWhile isspace (rev x) @ dropWhile isspace (rev x)" by simp
  then have "x = rev (dropWhile isspace (rev x)) @ rev (takeWhile isspace (rev x))"
    by (metis rev_append rev_rev_ident)
  moreover have "\<forall>c \<in> set (rev (takeWhile isspace (rev x))). isspace c"
    by (auto dest: set_takeWhileD)
  ultimately show ?thesis unfolding rstrip_def by blast
qed

lemma lstrip_head: "lstrip s \<noteq> [] \<Longrightarrow> \<not> isspace (hd (lstrip s))"
  unfolding lstrip_def by (rule hd_dropWhile)

lemma strip_head: "strip s \<noteq> [] \<Longrightarrow> \<not> isspace (hd (strip s))"
proof -
  assume ne: "strip s \<noteq> []"
  obtain ys where ys: "lstrip s = rstrip (lstrip s) @ ys" using rstrip_decomp by blast
  from ne have "hd (lstrip s) = hd (strip s)" unfolding strip_def
    by (metis ys hd_append2)
  moreover from ne ys have "lstrip s \<noteq> []" unfolding strip_def by auto
  ultimately show ?thesis using lstrip_head by metis
qed

lemma lstrip_nonspace: "s \<noteq> [] \<Longrightarrow> \<not> isspace (hd s) \<Longrightarrow> lstrip s = s"
  unfolding lstrip_def by (cases s) auto

lemma lstrip_space: "isspace c \<Longrightarrow> lstrip (c # s) = lstrip s"
  unfolding lstrip_def by simp

lemma strip_space_cons: "isspace c \<Longrightarrow> strip (c # s) = strip s"
  unfolding strip_def by (simp add: lstrip_space)

lemma isspace_char_blank: "isspace_char (CHR '' '')"
  by (simp add: isspace_char_def)

lemma isspace_blank: "isspace (Latin (CHR '' ''))"
  by (simp add: isspace_char_blank)

lemma lower_char_blank: "lower_char (CHR '' '') = CHR '' ''"
  by (simp add: lower_char_def)

lemma lower_append:
  "CapitalSigma \<notin> set (a @ b) \<Longrightarrow> lower (a @ b) = lower a @ lower b"
  by (simp add: lower_map)

lemma lower_blank_cons:
  "CapitalSigma \<notin> set (a @ b) \<Longrightarrow>
   lower (a @ Latin (CHR '' '') # b) = lower a @ Latin (CHR '' '') # lower b"
  by (simp add: lower_map lower_char_blank)

text \<open>
  A string that still starts with \<open>w\<close> after stripping keeps doing so when a blank is
  put after \<open>w\<close>, and what is left after \<open>w\<close> strips to the same text.
\<close>

lemma run_together:
  assumes "startswith (strip (w @ x)) w"
  shows "startswith (strip (w @ Latin (CHR '' '') # x)) w \<and>
         strip (drop (length w) (strip (w @ Latin (CHR '' '') # x))) = strip (drop (length w) (strip (w @ x)))"
proof (cases "w = []")
  case True
  then show ?thesis by (simp add: strip_space_cons isspace_blank isspace_char_blank)
next
  case False
  from assms obtain r where r: "strip (w @ x) = w @ r" by (auto simp: startswith_iff)
  with False have "\<not> isspace (hd (strip (w @ x)))" using strip_head by (metis Nil_is_append_conv)
  with r False have hdw: "\<not> isspace (hd w)" by simp
  with False have l1: "lstrip (w @ x) = w @ x" by (intro lstrip_nonspace) auto
  from hdw False have l2: "lstrip (w @ Latin (CHR '' '') # x) = w @ Latin (CHR '' '') # x" by (intro lstrip_nonspace) auto
  show ?thesis
  proof (cases "\<forall>c \<in> set x. isspace c")
    case True
    then have "rstrip (w @ x) = rstrip w" by (rule rstrip_append_space)
    with r l1 have "rstrip w = w @ r" by (simp add: strip_def)
    moreover obtain ys where "w = rstrip w @ ys" using rstrip_decomp by blast
    ultimately have "w = w @ (r @ ys)" by simp
    then have "r = []" by simp
    with \<open>rstrip w = w @ r\<close> have rw: "rstrip w = w" by simp
    with \<open>rstrip (w @ x) = rstrip w\<close> l1 have s1: "strip (w @ x) = w" by (simp add: strip_def)
    from True have "\<forall>c \<in> set (Latin (CHR '' '') # x). isspace c" by (simp add: isspace_blank isspace_char_blank)
    then have "rstrip (w @ Latin (CHR '' '') # x) = rstrip w" by (rule rstrip_append_space)
    with rw l2 have s2: "strip (w @ Latin (CHR '' '') # x) = w" by (simp add: strip_def)
    show ?thesis by (simp add: s1 s2 startswith_iff)
  next
    case nsp: False
    then have "rstrip (w @ x) = w @ rstrip x" by (rule rstrip_append_nonspace)
    with l1 have s1: "strip (w @ x) = w @ rstrip x" by (simp add: strip_def)
    from nsp have "rstrip ([Latin (CHR '' '')] @ x) = [Latin (CHR '' '')] @ rstrip x"
      by (rule rstrip_append_nonspace)
    then have b: "rstrip (Latin (CHR '' '') # x) = Latin (CHR '' '') # rstrip x" by simp
    from nsp have "\<not> (\<forall>c \<in> set (Latin (CHR '' '') # x). isspace c)" by simp
    then have "rstrip (w @ Latin (CHR '' '') # x) = w @ rstrip (Latin (CHR '' '') # x)"
      by (rule rstrip_append_nonspace)
    with b l2 have s2: "strip (w @ Latin (CHR '' '') # x) = w @ Latin (CHR '' '') # rstrip x"
      by (simp add: strip_def)
    show ?thesis by (simp add: s1 s2 startswith_iff strip_space_cons isspace_blank isspace_char_blank)
  qed
qed

section \<open>Evaluating the example registry\<close>

lemma lower_peter: "lower (lit ''peter'') = lit ''peter''"
  by code_simp

lemma example_wake_word: "CommandRegistry.wake_word example_registry = lit ''peter''"
  by (simp add: example_registry_def register_def CommandRegistry_init_def lower_peter)

lemma example_commands: "commands example_registry = [H1, H2]"
  by (simp add: example_registry_def register_def CommandRegistry_init_def)

lemma lower_lampu: "lower (lit ''peter nyalakan lampu nyala'') = lit ''peter nyalakan lampu nyala''"
  by code_simp

lemma strip_lampu: "strip (lit ''peter nyalakan lampu nyala'') = lit ''peter nyalakan lampu nyala''"
  by code_simp

lemma strip_drop_lampu:
  "strip (drop 5 (lit ''peter nyalakan lampu nyala'')) = lit ''nyalakan lampu nyala''"
  by code_simp

lemma example_has_wake_word: "has_wake_word example_registry (lit ''peter nyalakan lampu nyala'')"
  by (simp add: has_wake_word_def example_wake_word lower_lampu strip_lampu)

lemma example_remove_wake_word:
  "remove_wake_word example_registry (lit ''peter nyalakan lampu nyala'') = lit ''nyalakan lampu nyala''"
  using strip_drop_lampu by (simp add: remove_wake_word_def example_wake_word lower_lampu strip_lampu)

lemma contains_lampu: "contains (lit ''nyalakan lampu nyala'') (lit ''lampu'')"
  by code_simp

lemma contains_lampu_nyala: "contains (lit ''nyalakan lampu nyala'') (lit ''lampu nyala'')"
  by code_simp

lemma lower_buka: "lower (lit ''buka youtube'') = lit ''buka youtube''"
  by code_simp

lemma strip_buka: "strip (lit ''buka youtube'') = lit ''buka youtube''"
  by code_simp

lemma example_no_wake_word: "\<not> has_wake_word example_registry (lit ''buka youtube'')"
  by (simp add: has_wake_word_def example_wake_word lower_buka strip_buka)

lemma lower_peterbuka: "lower (lit ''peterbuka youtube'') = lit ''peterbuka youtube''"
  by code_simp

lemma strip_peterbuka: "strip (lit ''peterbuka youtube'') = lit ''peterbuka youtube''"
  by code_simp

lemma lower_PETER: "lower (lit ''PETER'') = lit ''peter''"
  by code_simp

lemma lower_empty: "lower [] = []"
  by (simp add: lower_def)

lemma lower_padded: "lower (lit '' peter '') = lit '' peter ''"
  by code_simp

lemma strip_padded: "strip (lit '' peter '') = lit ''peter''"
  by code_simp



lemma lower_peter_buka: "lower (lit ''peter buka youtube'') = lit ''peter buka youtube''"
  by code_simp

lemma strip_peter_buka: "strip (lit ''peter buka youtube'') = lit ''peter buka youtube''"
  by code_simp

lemma strip_blank_buka: "strip (lit '' buka youtube'') = lit ''buka youtube''"
  by code_simp

lemma example_has_wake_word_buka: "has_wake_word example_registry (lit ''peter buka youtube'')"
  by (simp add: has_wake_word_def example_wake_word lower_peter_buka strip_peter_buka)

lemma example_remove_wake_word_buka:
  "remove_wake_word example_registry (lit ''peter buka youtube'') = lit ''buka youtube''"
  by (simp add: remove_wake_word_def example_wake_word lower_peter_buka strip_peter_buka
        strip_blank_buka)

lemma not_contains_lampu: "\<not> contains (lit ''buka youtube'') (lit ''lampu'')"
  by code_simp

lemma not_contains_lampu_nyala: "\<not> contains (lit ''buka youtube'') (lit ''lampu nyala'')"
  by code_simp

lemma example_none_match:
  "\<forall>h \<in> set (commands example_registry).
     \<not> example_can_handle h (remove_wake_word example_registry (lit ''peter buka youtube''))"
  by (simp add: example_commands example_remove_wake_word_buka not_contains_lampu
        not_contains_lampu_nyala)

section \<open>Facts about failures and the round trip of a configuration\<close>

lemma example_execute_Exception:
  "\<forall>h s c v e v'. example_execute h s c v = (Inl e, v') \<longrightarrow> is_Exception (exc_class e)"
proof (intro allI impI)
  fix h s c v e v'
  assume "example_execute h s c v = (Inl e, v')"
  then show "is_Exception (exc_class e)" by (cases h) (auto simp: raise_exc_def)
qed

lemma execute_command_error_class:
  assumes ok: "\<forall>h s c v e v'. ex h s c v = (Inl e, v') \<longrightarrow> is_Exception (exc_class e)"
    and r: "execute_command ch ex r t c v = (Inl e, v')"
  shows "exc_class e = CommandExecutionError"
proof (cases "has_wake_word r t")
  case False
  with r show ?thesis by (auto simp: execute_command_def raise_exc_def)
next
  case True
  show ?thesis
  proof (cases "get_handler ch r t")
    case None
    with True r show ?thesis by (auto simp: execute_command_def raise_exc_def)
  next
    case (Some h)
    obtain out v2 where o: "ex h (remove_wake_word r t) c v = (out, v2)"
      by (cases "ex h (remove_wake_word r t) c v")
    show ?thesis
    proof (cases out)
      case (Inl e0)
      with o ok have "is_Exception (exc_class e0)" by blast
      with True Some o Inl r show ?thesis by (auto simp: execute_command_def raise_exc_def)
    next
      case (Inr val)
      with True Some o r show ?thesis by (simp add: execute_command_def)
    qed
  qed
qed

lemma example_execute_command:
  "execute_command example_can_handle example_execute example_registry
        (lit ''peter nyalakan lampu nyala'') None []
        = (Inl (raise_exc CommandExecutionError (lit ''Failed to execute command: Device not found'')),
           [(H1, lit ''nyalakan lampu nyala'')])"
  by (simp add: execute_command_def get_handler_def example_has_wake_word
        example_remove_wake_word example_commands contains_lampu raise_exc_def)

lemma SmartDevice_list_to_dict:
  "SmartDevice_list_check ds = Inr () \<Longrightarrow>
   SmartDevice_list te (map (\<lambda>device.
          \<lparr>d_name = Some (name device),
           d_device_id = Some (device_id device),
           d_ip_address = Some (ip_address device),
           d_local_key = Some (local_key device),
           d_device_type = Some (device_type device)\<rparr>) ds) = Inr ds"
proof (induction ds)
  case Nil
  then show ?case by simp
next
  case (Cons d ds)
  from Cons.prems have p: "SmartDevice_post_init d = Inr d" and c: "SmartDevice_list_check ds = Inr ()"
    by (auto simp: SmartDevice_post_init_def split: if_splits sum.splits)
  from p have "SmartDevice_new (name d) (device_id d) (ip_address d) (local_key d) (device_type d) = Inr d"
    by (simp add: SmartDevice_new_def SmartDevice_post_init_def split: if_splits)
  with Cons.IH [OF c] show ?case
    by (simp add: SmartDevice_from_kwargs_def get_default_def)
qed

lemma roundtrip_resets_wake_word:
  assumes "validate c = Inr ()"
  shows "from_dict te (to_dict c)
           = Inr (c\<lparr>settings := (settings c)\<lparr>AssistantSettings.wake_word := lit ''peter''\<rparr>\<rparr>)"
proof -
  from assms have d: "SmartDevice_list_check (smart_devices c) = Inr ()"
    and s: "AssistantSettings_post_init (settings c) = Inr (settings c)"
    by (auto simp: validate_def AssistantSettings_post_init_def split: sum.splits if_splits)
  let ?s' = "(settings c)\<lparr>AssistantSettings.wake_word := lit ''peter''\<rparr>"
  from s have s': "AssistantSettings_post_init ?s' = Inr ?s'"
    by (simp add: AssistantSettings_post_init_def split: if_splits)
  have eq: "\<lparr>speech_timeout = speech_timeout (settings c),
            phrase_time_limit = phrase_time_limit (settings c),
            language = language (settings c),
            log_level = log_level (settings c),
            screenshots_folder = screenshots_folder (settings c),
            AssistantSettings.wake_word = lit ''peter''\<rparr> = ?s'" by simp
  show ?thesis
    using SmartDevice_list_to_dict [OF d, of te] s'
    by (simp add: from_dict_def to_dict_def get_default_def AssistantSettings_from_kwargs_def
          except_TypeError_def eq)
qed

lemma jarvis_valid: "validate jarvis_config = Inr ()"
  by (simp add: validate_def jarvis_config_def SmartDevice_post_init_def
        AssistantSettings_post_init_def)

section \<open>Evaluating texts with a capital sigma\<close>

lemma lower_peter_sigma: "lower (lit ''peter'' @ [CapitalSigma]) = lit ''peter'' @ [FinalSigma]"
  by code_simp

lemma lower_peter_blank_sigma:
  "lower (lit ''peter'' @ Latin (CHR '' '') # [CapitalSigma])
     = lit ''peter'' @ Latin (CHR '' '') # [SmallSigma]"
  by code_simp

lemma strip_peter_sigma: "strip (lit ''peter'' @ [FinalSigma]) = lit ''peter'' @ [FinalSigma]"
  by code_simp

lemma strip_peter_blank_sigma:
  "strip (lit ''peter'' @ Latin (CHR '' '') # [SmallSigma])
     = lit ''peter'' @ Latin (CHR '' '') # [SmallSigma]"
  by code_simp

lemma strip_final_sigma: "strip [FinalSigma] = [FinalSigma]"
  by code_simp

lemma strip_blank_small_sigma: "strip (Latin (CHR '' '') # [SmallSigma]) = [SmallSigma]"
  by code_simp

lemma sigma_has_wake_word: "has_wake_word example_registry (lit ''peter'' @ [CapitalSigma])"
  by (simp add: has_wake_word_def example_wake_word lower_peter_sigma strip_peter_sigma
        startswith_append)

lemma sigma_remove_wake_word:
  "remove_wake_word example_registry (lit ''peter'' @ [CapitalSigma]) = [FinalSigma]"
  by (simp add: remove_wake_word_def example_wake_word lower_peter_sigma strip_peter_sigma
        startswith_append strip_final_sigma)

lemma blank_sigma_has_wake_word:
  "has_wake_word example_registry (lit ''peter'' @ Latin (CHR '' '') # [CapitalSigma])"
  by (simp add: has_wake_word_def example_wake_word lower_peter_blank_sigma
        strip_peter_blank_sigma startswith_append)

lemma blank_sigma_remove_wake_word:
  "remove_wake_word example_registry (lit ''peter'' @ Latin (CHR '' '') # [CapitalSigma])
     = [SmallSigma]"
  by (simp add: remove_wake_word_def example_wake_word lower_peter_blank_sigma
        strip_peter_blank_sigma startswith_append strip_blank_small_sigma)

section \<open>Facts about the orchestrator\<close>

lemma process_command_safely_value:
  assumes "exec_cmd command w = (Inr v, w')"
  shows "process_command_safely exec_cmd command w log =
           (None, w',
            log @ [(INFO, lit ''Processing command: '' @ command),
                   (INFO, if v \<noteq> [] then lit ''Command executed successfully: '' @ v
                          else lit ''Command executed successfully'')])"
  using assms by (simp add: process_command_safely_def Let_def)

lemma process_command_safely_Exception:
  assumes "exec_cmd command w = (Inl e, w')" and "is_Exception (exc_class e)"
  shows "\<exists>entry. process_command_safely exec_cmd command w log =
           (None, w', log @ [(INFO, lit ''Processing command: '' @ command), (ERROR, entry)])
         \<and> contains entry (message e)"
proof (cases "exc_class e = CommandExecutionError")
  case True
  with assms have "process_command_safely exec_cmd command w log =
      (None, w', log @ [(INFO, lit ''Processing command: '' @ command),
                        (ERROR, lit ''Command execution error: '' @ message e)])"
    by (simp add: process_command_safely_def Let_def)
  moreover have "contains (lit ''Command execution error: '' @ message e) (message e)"
    by (rule contains_append)
  ultimately show ?thesis by blast
next
  case False
  let ?pre = "lit ''Unexpected error processing command '' @ lit [CHR 0x27]
                @ command @ lit [CHR 0x27] @ lit '': ''"
  from False assms have "process_command_safely exec_cmd command w log =
      (None, w', log @ [(INFO, lit ''Processing command: '' @ command),
                        (ERROR, ?pre @ message e)])"
    by (simp add: process_command_safely_def Let_def)
  moreover have "contains (?pre @ message e) (message e)"
    by (rule contains_append)
  ultimately show ?thesis by blast
qed

lemma process_command_safely_escapes:
  assumes "exec_cmd command w = (Inl e, w')" and "\<not> is_Exception (exc_class e)"
  shows "process_command_safely exec_cmd command w log =
           (Some e, w', log @ [(INFO, lit ''Processing command: '' @ command)])"
proof -
  from assms(2) have "exc_class e \<noteq> CommandExecutionError" by auto
  with assms show ?thesis by (simp add: process_command_safely_def Let_def)
qed

lemma process_command_safely_registry:
  assumes ok: "\<forall>h s c v e v'. ex h s c v = (Inl e, v') \<longrightarrow> is_Exception (exc_class e)"
  shows "fst (process_command_safely (registry_call ch ex r) command w log) = None"
proof -
  obtain out w' where o: "registry_call ch ex r command w = (out, w')"
    by (cases "registry_call ch ex r command w")
  show ?thesis
  proof (cases out)
    case (Inl e)
    with o have "execute_command ch ex r command None w = (Inl e, w')"
      by (simp add: registry_call_def)
    with ok have "exc_class e = CommandExecutionError" by (rule execute_command_error_class)
    with o Inl show ?thesis by (simp add: process_command_safely_def Let_def)
  next
    case (Inr v)
    with o show ?thesis by (simp add: process_command_safely_def Let_def)
  qed
qed

lemma running_start_command_thread:
  "running (start_command_thread exec_cmd command a) = running a"
  by (simp add: start_command_thread_def split: prod.splits)

lemma main_loop_still_listening:
  "running a \<Longrightarrow> list_all value_or_Exception heard \<Longrightarrow>
   still_listening (main_loop exec_cmd heard a)"
proof (induction heard arbitrary: a)
  case Nil
  then show ?case by simp
next
  case (Cons x heard)
  from Cons.prems have r: "running a" and x: "value_or_Exception x"
    and rest: "list_all value_or_Exception heard" by simp_all
  show ?case
  proof (cases x)
    case (Inl e)
    with x have "is_Exception (exc_class e)" by simp
    moreover have "still_listening (main_loop exec_cmd heard
        (a\<lparr>logged := logged a @ [(ERROR, lit ''Error in main loop: '' @ message e)]\<rparr>))"
      using r rest by (intro Cons.IH) simp_all
    ultimately show ?thesis using r Inl by simp
  next
    case (Inr c)
    show ?thesis
    proof (cases c)
      case None
      with Inr r Cons.IH [OF r rest] show ?thesis by simp
    next
      case (Some command)
      have "still_listening (main_loop exec_cmd heard (start_command_thread exec_cmd command a))"
        using r rest by (intro Cons.IH) (simp_all add: running_start_command_thread)
      with Inr Some r Cons.IH [OF r rest] show ?thesis by simp
    qed
  qed
qed

lemma lamp_wake_word: "CommandRegistry.wake_word lamp_registry = lit ''peter''"
  by (simp add: lamp_registry_def register_def CommandRegistry_init_def lower_peter)

lemma lamp_commands: "commands lamp_registry = [H2]"
  by (simp add: lamp_registry_def register_def CommandRegistry_init_def)

lemma lamp_has_wake_word: "has_wake_word lamp_registry (lit ''peter nyalakan lampu nyala'')"
  by (simp add: has_wake_word_def lamp_wake_word lower_lampu strip_lampu)

lemma lamp_remove_wake_word:
  "remove_wake_word lamp_registry (lit ''peter nyalakan lampu nyala'') = lit ''nyalakan lampu nyala''"
  using strip_drop_lampu by (simp add: remove_wake_word_def lamp_wake_word lower_lampu strip_lampu)

lemma lamp_registry_call:
  "registry_call example_can_handle example_execute lamp_registry
     (lit ''peter nyalakan lampu nyala'') []
   = (Inr (lit ''Lamp on''), [(H2, lit ''nyalakan lampu nyala'')])"
  by (simp add: registry_call_def execute_command_def get_handler_def lamp_has_wake_word
        lamp_remove_wake_word lamp_commands contains_lampu_nyala)

lemma example_registry_call:
  "registry_call example_can_handle example_execute example_registry
     (lit ''peter nyalakan lampu nyala'') []
   = (Inl (raise_exc CommandExecutionError (lit ''Failed to execute command: Device not found'')),
      [(H1, lit ''nyalakan lampu nyala'')])"
  by (simp add: registry_call_def example_execute_command)

lemma exiting_registry_call:
  "registry_call example_can_handle exiting_execute example_registry
     (lit ''peter nyalakan lampu nyala'') []
   = (Inl (raise_exc SystemExit []), [(H1, lit ''nyalakan lampu nyala'')])"
  by (simp add: registry_call_def execute_command_def get_handler_def example_has_wake_word
        example_remove_wake_word example_commands contains_lampu exiting_execute_def
        raise_exc_def)

section \<open>Dispatch\<close>

text \<open>
  C1. For a text \<open>t\<close> that passes the wake-word gate, the command the handlers see is
  the lower-cased, stripped text without its first \<open>len(wake_word)\<close> characters,
  stripped again. \<open>get_handler\<close> returns \<open>h\<close> exactly when \<open>h\<close> stands in the handler
  sequence at a place where it accepts that command and no handler before it does: the
  first match in registration order wins, whatever a later handler would accept. When
  no registered handler accepts the command, \<open>execute_command\<close> fails with the
  \<open>CommandExecutionError\<close> "No handler found for command".
\<close>

theorem first_match_wins:
  assumes "has_wake_word r t"
  shows "remove_wake_word r t = strip (drop (length (CommandRegistry.wake_word r)) (strip (lower t)))
    \<and> (\<forall>h. get_handler ch r t = Some h \<longleftrightarrow>
          (\<exists>pre post. commands r = pre @ h # post \<and> ch h (remove_wake_word r t)
             \<and> (\<forall>g \<in> set pre. \<not> ch g (remove_wake_word r t))))
    \<and> ((\<forall>h \<in> set (commands r). \<not> ch h (remove_wake_word r t)) \<longrightarrow>
          execute_command ch ex r t ctx w =
            (Inl (raise_exc CommandExecutionError (lit ''No handler found for command: '' @ t)), w))"
proof -
  from assms have a: "remove_wake_word r t = strip (drop (length (CommandRegistry.wake_word r)) (strip (lower t)))"
    by (simp add: has_wake_word_def remove_wake_word_def Let_def)
  from assms have g: "get_handler ch r t = first_handler ch (commands r) (remove_wake_word r t)"
    by (simp add: get_handler_def)
  have b: "\<forall>h. get_handler ch r t = Some h \<longleftrightarrow>
          (\<exists>pre post. commands r = pre @ h # post \<and> ch h (remove_wake_word r t)
             \<and> (\<forall>g \<in> set pre. \<not> ch g (remove_wake_word r t)))"
    unfolding g by (simp only: first_handler_Some) simp
  have c: "(\<forall>h \<in> set (commands r). \<not> ch h (remove_wake_word r t)) \<longrightarrow>
          execute_command ch ex r t ctx w =
            (Inl (raise_exc CommandExecutionError (lit ''No handler found for command: '' @ t)), w)"
  proof
    assume "\<forall>h \<in> set (commands r). \<not> ch h (remove_wake_word r t)"
    then have "get_handler ch r t = None" unfolding g by (simp only: first_handler_None)
    with assms show "execute_command ch ex r t ctx w =
            (Inl (raise_exc CommandExecutionError (lit ''No handler found for command: '' @ t)), w)"
      by (simp add: execute_command_def)
  qed
  from a b c show ?thesis by blast
qed

theorem first_match_wins_witness:
  "has_wake_word example_registry (lit ''peter nyalakan lampu nyala'')
   \<and> example_can_handle H2 (remove_wake_word example_registry (lit ''peter nyalakan lampu nyala''))
   \<and> get_handler example_can_handle example_registry (lit ''peter nyalakan lampu nyala'') = Some H1
   \<and> has_wake_word example_registry (lit ''peter buka youtube'')
   \<and> execute_command example_can_handle example_execute example_registry
        (lit ''peter buka youtube'') None []
       = (Inl (raise_exc CommandExecutionError (lit ''No handler found for command: peter buka youtube'')),
          [])"
proof -
  let ?t = "(lit ''peter nyalakan lampu nyala'')"
  let ?u = "(lit ''peter buka youtube'')"
  have hu: "has_wake_word example_registry ?u" by (rule example_has_wake_word_buka)
  note fu = first_match_wins [OF hu, of example_can_handle example_execute None "[]"]
  from fu have "(\<forall>h \<in> set (commands example_registry).
                   \<not> example_can_handle h (remove_wake_word example_registry ?u)) \<longrightarrow>
          execute_command example_can_handle example_execute example_registry ?u None [] =
            (Inl (raise_exc CommandExecutionError (lit ''No handler found for command: '' @ ?u)), [])"
    by (rule conjunct2 [OF conjunct2])
  with example_none_match
  have "execute_command example_can_handle example_execute example_registry ?u None [] =
            (Inl (raise_exc CommandExecutionError (lit ''No handler found for command: '' @ ?u)), [])"
    by (rule rev_mp)
  then have xu: "execute_command example_can_handle example_execute example_registry ?u None [] =
      (Inl (raise_exc CommandExecutionError (lit ''No handler found for command: peter buka youtube'')), [])"
    by simp
  have h: "has_wake_word example_registry ?t" by (rule example_has_wake_word)
  have c2: "example_can_handle H2 (remove_wake_word example_registry ?t)"
    by (simp only: example_remove_wake_word example_can_handle.simps contains_lampu_nyala)
  have c1: "example_can_handle H1 (remove_wake_word example_registry ?t)"
    by (simp only: example_remove_wake_word example_can_handle.simps contains_lampu)
  have cs: "commands example_registry = [] @ H1 # [H2]"
    by (simp add: example_commands)
  have "\<forall>g \<in> set []. \<not> example_can_handle g (remove_wake_word example_registry ?t)"
    by simp
  with cs c1 have "\<exists>pre post. commands example_registry = pre @ H1 # post
             \<and> example_can_handle H1 (remove_wake_word example_registry ?t)
             \<and> (\<forall>g \<in> set pre. \<not> example_can_handle g (remove_wake_word example_registry ?t))"
    by blast
  moreover have "get_handler example_can_handle example_registry ?t = Some H1 \<longleftrightarrow>
          (\<exists>pre post. commands example_registry = pre @ H1 # post
             \<and> example_can_handle H1 (remove_wake_word example_registry ?t)
             \<and> (\<forall>g \<in> set pre. \<not> example_can_handle g (remove_wake_word example_registry ?t)))"
  proof -
    note fm = first_match_wins [OF h, of example_can_handle example_execute None "[]"]
    from fm have "\<forall>h. get_handler example_can_handle example_registry ?t = Some h \<longleftrightarrow>
          (\<exists>pre post. commands example_registry = pre @ h # post
             \<and> example_can_handle h (remove_wake_word example_registry ?t)
             \<and> (\<forall>g \<in> set pre. \<not> example_can_handle g (remove_wake_word example_registry ?t)))"
      by (rule conjunct1 [OF conjunct2])
    then show ?thesis by (rule spec)
  qed
  ultimately have "get_handler example_can_handle example_registry ?t = Some H1" by (rule rev_iffD2)
  with h c2 hu xu show ?thesis by (intro conjI)
qed

text \<open>
  C2. For a text \<open>t\<close> that does not pass the wake-word gate, \<open>execute_command\<close> fails
  with the \<open>CommandExecutionError\<close> "Command must start with wake word", whatever the
  handlers are and whatever their \<open>execute\<close> would do: no handler is selected, and the
  world comes back unchanged, so no \<open>execute\<close> has run.
\<close>

theorem missing_wake_word_fails:
  assumes "\<not> has_wake_word r t"
  shows "execute_command ch ex r t ctx w =
           (Inl (raise_exc CommandExecutionError
                   (lit ''Command must start with wake word '' @ lit [CHR 0x27] @ CommandRegistry.wake_word r
                      @ lit [CHR 0x27] @ lit '': '' @ t)), w)
         \<and> get_handler ch r t = None"
  using assms by (simp add: execute_command_def get_handler_def)

theorem missing_wake_word_fails_witness:
  "\<not> has_wake_word example_registry (lit ''buka youtube'')
   \<and> execute_command example_can_handle example_execute example_registry (lit ''buka youtube'') None []
       = (Inl (raise_exc CommandExecutionError
                 (lit ''Command must start with wake word '' @ lit [CHR 0x27] @ lit ''peter''
                    @ lit [CHR 0x27] @ lit '': buka youtube'')), [])"
proof -
  have h: "\<not> has_wake_word example_registry (lit ''buka youtube'')" by (rule example_no_wake_word)
  from missing_wake_word_fails [OF h, of example_can_handle example_execute None "[]"]
  have "execute_command example_can_handle example_execute example_registry (lit ''buka youtube'') None []
       = (Inl (raise_exc CommandExecutionError
                 (lit ''Command must start with wake word '' @ lit [CHR 0x27]
                    @ CommandRegistry.wake_word example_registry
                    @ lit [CHR 0x27] @ lit '': '' @ lit ''buka youtube'')), [])" by (rule conjunct1)
  then have "execute_command example_can_handle example_execute example_registry (lit ''buka youtube'') None []
       = (Inl (raise_exc CommandExecutionError
                 (lit ''Command must start with wake word '' @ lit [CHR 0x27] @ lit ''peter''
                    @ lit [CHR 0x27] @ lit '': buka youtube'')), [])"
    by (simp add: example_wake_word)
  with h show ?thesis by (intro conjI)
qed

text \<open>
  C3. When the selected handler's \<open>execute\<close> raises a failure \<open>e\<close> (an instance of
  \<open>Exception\<close>), \<open>execute_command\<close> raises a \<open>CommandExecutionError\<close> whose message
  is "Failed to execute command: " followed by the message of \<open>e\<close>, and so contains
  it. With handlers that raise such failures only, every exception that leaves
  \<open>execute_command\<close>, for any text, has the one class \<open>CommandExecutionError\<close>: the
  class of the missing-wake-word and no-handler-found failures.
\<close>

theorem handler_failure_wrapped:
  "(get_handler ch r t = Some h \<and> ex h (remove_wake_word r t) ctx w = (Inl e, w')
      \<and> is_Exception (exc_class e) \<longrightarrow>
      execute_command ch ex r t ctx w =
        (Inl (raise_exc CommandExecutionError (lit ''Failed to execute command: '' @ message e)), w')
      \<and> contains (lit ''Failed to execute command: '' @ message e) (message e))
   \<and> ((\<forall>h s c v e v'. ex h s c v = (Inl e, v') \<longrightarrow> is_Exception (exc_class e)) \<longrightarrow>
        (\<forall>t c v e v'. execute_command ch ex r t c v = (Inl e, v') \<longrightarrow>
           exc_class e = CommandExecutionError))"
proof (intro conjI impI allI)
  assume a: "get_handler ch r t = Some h \<and> ex h (remove_wake_word r t) ctx w = (Inl e, w')
      \<and> is_Exception (exc_class e)"
  then have hw: "has_wake_word r t" by (auto simp: get_handler_def split: if_splits)
  with a show "execute_command ch ex r t ctx w =
        (Inl (raise_exc CommandExecutionError (lit ''Failed to execute command: '' @ message e)), w')"
    by (simp add: execute_command_def)
  show "contains (lit ''Failed to execute command: '' @ message e) (message e)"
    by (rule contains_append)
next
  fix t c v e v'
  assume ok: "\<forall>h s c v e v'. ex h s c v = (Inl e, v') \<longrightarrow> is_Exception (exc_class e)"
    and r: "execute_command ch ex r t c v = (Inl e, v')"
  from ok r show "exc_class e = CommandExecutionError"
    by (rule execute_command_error_class)
qed

theorem handler_failure_wrapped_witness:
  "get_handler example_can_handle example_registry (lit ''peter nyalakan lampu nyala'') = Some H1
   \<and> example_execute H1 (remove_wake_word example_registry (lit ''peter nyalakan lampu nyala'')) None []
        = (Inl (raise_exc DeviceConnectionError (lit ''Device not found'')), [(H1, lit ''nyalakan lampu nyala'')])
   \<and> is_Exception (exc_class (raise_exc DeviceConnectionError (lit ''Device not found'')))
   \<and> execute_command example_can_handle example_execute example_registry
        (lit ''peter nyalakan lampu nyala'') None []
        = (Inl (raise_exc CommandExecutionError (lit ''Failed to execute command: Device not found'')),
           [(H1, lit ''nyalakan lampu nyala'')])
   \<and> exc_class (raise_exc CommandExecutionError (lit ''Failed to execute command: Device not found''))
        = CommandExecutionError"
proof -
  let ?t = "(lit ''peter nyalakan lampu nyala'')"
  let ?e = "raise_exc DeviceConnectionError (lit ''Device not found'')"
  let ?e' = "raise_exc CommandExecutionError (lit ''Failed to execute command: Device not found'')"
  have g: "get_handler example_can_handle example_registry ?t = Some H1"
    by (simp add: get_handler_def example_has_wake_word example_remove_wake_word
          example_commands contains_lampu)
  have x: "example_execute H1 (remove_wake_word example_registry ?t) None []
        = (Inl ?e, [(H1, lit ''nyalakan lampu nyala'')])"
    by (simp add: example_remove_wake_word)
  have i: "is_Exception (exc_class ?e)" by (simp add: raise_exc_def)
  have m: "message ?e = lit ''Device not found''" by (simp add: raise_exc_def)
  note th = handler_failure_wrapped [of example_can_handle example_registry ?t H1 example_execute
         None "[]" ?e "[(H1, lit ''nyalakan lampu nyala'')]"]
  from th g x i
  have "execute_command example_can_handle example_execute example_registry ?t None []
        = (Inl (raise_exc CommandExecutionError (lit ''Failed to execute command: '' @ message ?e)),
           [(H1, lit ''nyalakan lampu nyala'')])" by blast
  then have r: "execute_command example_can_handle example_execute example_registry ?t None []
        = (Inl ?e', [(H1, lit ''nyalakan lampu nyala'')])" by (simp add: m)
  from th have "(\<forall>h s c v e v'. example_execute h s c v = (Inl e, v') \<longrightarrow> is_Exception (exc_class e))
      \<longrightarrow> (\<forall>t c v e v'. execute_command example_can_handle example_execute example_registry t c v
                          = (Inl e, v') \<longrightarrow> exc_class e = CommandExecutionError)"
    by (rule conjunct2)
  with example_execute_Exception
  have "\<forall>t c v e v'. execute_command example_can_handle example_execute example_registry t c v
                          = (Inl e, v') \<longrightarrow> exc_class e = CommandExecutionError"
    by (rule rev_mp)
  with r have c: "exc_class ?e' = CommandExecutionError" by blast
  from g x i r c show ?thesis by (intro conjI)
qed

section \<open>The wake-word gate is a prefix test\<close>

text \<open>
  C10, as the code has it. The gate asks for no word boundary after the wake word. A
  text whose lower-cased, stripped form starts with the wake word passes
  \<open>has_wake_word\<close>, and \<open>remove_wake_word\<close> drops the first \<open>len(wake_word)\<close>
  characters of that form and strips what is left. When a text \<open>a @ b\<close> without a
  capital sigma, with \<open>a\<close> a spelling of the wake word, passes the gate, the text with
  a blank put between \<open>a\<close> and \<open>b\<close> passes it too, the command left is the same, and
  the same handler is selected.
\<close>

theorem wake_word_prefix_no_boundary:
  "(startswith (strip (lower t)) (CommandRegistry.wake_word r) \<longrightarrow>
      has_wake_word r t
      \<and> remove_wake_word r t
          = strip (drop (length (CommandRegistry.wake_word r)) (strip (lower t))))
   \<and> (CapitalSigma \<notin> set (a @ b) \<and> lower a = CommandRegistry.wake_word r
        \<and> has_wake_word r (a @ b) \<longrightarrow>
      has_wake_word r (a @ Latin (CHR '' '') # b)
      \<and> remove_wake_word r (a @ Latin (CHR '' '') # b) = remove_wake_word r (a @ b)
      \<and> get_handler ch r (a @ Latin (CHR '' '') # b) = get_handler ch r (a @ b))"
proof (intro conjI impI)
  assume p: "startswith (strip (lower t)) (CommandRegistry.wake_word r)"
  then show "has_wake_word r t" by (simp add: has_wake_word_def)
  from p show "remove_wake_word r t
          = strip (drop (length (CommandRegistry.wake_word r)) (strip (lower t)))"
    by (simp add: remove_wake_word_def)
next
  let ?w = "CommandRegistry.wake_word r"
  assume a: "CapitalSigma \<notin> set (a @ b) \<and> lower a = ?w \<and> has_wake_word r (a @ b)"
  then have ns: "CapitalSigma \<notin> set (a @ b)" and la0: "lower a = ?w"
    and hw0: "has_wake_word r (a @ b)" by blast+
  have la: "lower (a @ b) = ?w @ lower b"
    using la0 lower_append [OF ns] by simp
  have lb: "lower (a @ Latin (CHR '' '') # b) = ?w @ Latin (CHR '' '') # lower b"
    using la0 lower_blank_cons [OF ns] by simp
  from hw0 la have p: "startswith (strip (?w @ lower b)) ?w" by (simp add: has_wake_word_def)
  note rt = run_together [OF p]
  from rt lb show hw: "has_wake_word r (a @ Latin (CHR '' '') # b)"
    by (simp add: has_wake_word_def)
  from rt p la lb
  show rw: "remove_wake_word r (a @ Latin (CHR '' '') # b) = remove_wake_word r (a @ b)"
    by (simp add: remove_wake_word_def)
  from hw0 hw rw show "get_handler ch r (a @ Latin (CHR '' '') # b) = get_handler ch r (a @ b)"
    by (simp add: get_handler_def)
qed

theorem wake_word_prefix_no_boundary_witness:
  "startswith (strip (lower (lit ''peterbuka youtube''))) (CommandRegistry.wake_word example_registry)
   \<and> CapitalSigma \<notin> set (lit ''peter'' @ lit ''buka youtube'')
   \<and> lower (lit ''peter'') = CommandRegistry.wake_word example_registry
   \<and> has_wake_word example_registry (lit ''peter'' @ lit ''buka youtube'')
   \<and> remove_wake_word example_registry (lit ''peterbuka youtube'') = lit ''buka youtube''
   \<and> remove_wake_word example_registry (lit ''peter buka youtube'') = lit ''buka youtube''
   \<and> get_handler example_can_handle example_registry (lit ''peter buka youtube'')
       = get_handler example_can_handle example_registry (lit ''peterbuka youtube'')"
proof -
  have p: "startswith (strip (lower (lit ''peterbuka youtube'')))
             (CommandRegistry.wake_word example_registry)"
    by (simp add: example_wake_word lower_peterbuka strip_peterbuka)
  have ns: "CapitalSigma \<notin> set (lit ''peter'' @ lit ''buka youtube'')" by simp
  have l: "lower (lit ''peter'') = CommandRegistry.wake_word example_registry"
    by (simp add: example_wake_word lower_peter)
  note th = wake_word_prefix_no_boundary [of "lit ''peterbuka youtube''" example_registry
              "lit ''peter''" "lit ''buka youtube''" example_can_handle]
  from th p have h: "has_wake_word example_registry (lit ''peterbuka youtube'')" by blast
  from th p have "remove_wake_word example_registry (lit ''peterbuka youtube'')
      = strip (drop (length (CommandRegistry.wake_word example_registry))
                 (strip (lower (lit ''peterbuka youtube''))))" by blast
  then have r1: "remove_wake_word example_registry (lit ''peterbuka youtube'') = lit ''buka youtube''"
    by (simp add: example_wake_word lower_peterbuka strip_peterbuka strip_buka)
  from h have h': "has_wake_word example_registry (lit ''peter'' @ lit ''buka youtube'')" by simp
  from th ns l h' have
    "remove_wake_word example_registry (lit ''peter'' @ Latin (CHR '' '') # lit ''buka youtube'')
       = remove_wake_word example_registry (lit ''peter'' @ lit ''buka youtube'')"
    and "get_handler example_can_handle example_registry
           (lit ''peter'' @ Latin (CHR '' '') # lit ''buka youtube'')
       = get_handler example_can_handle example_registry (lit ''peter'' @ lit ''buka youtube'')"
    by blast+
  then have r2: "remove_wake_word example_registry (lit ''peter buka youtube'') = lit ''buka youtube''"
    and g: "get_handler example_can_handle example_registry (lit ''peter buka youtube'')
       = get_handler example_can_handle example_registry (lit ''peterbuka youtube'')"
    using r1 by simp_all
  from p ns l h' r1 r2 g show ?thesis by (intro conjI)
qed

text \<open>
  C10, as claimed for every text, fails at a capital sigma. With the wake word
  \<open>peter\<close>, the text \<open>peter\<close> followed at once by a capital sigma passes the gate and
  leaves the final sigma as the command, since the sigma ends a word there; with a
  blank between them the command left is the small sigma. A handler that looks for the
  small sigma is selected for the second text and not for the first.
\<close>

theorem run_together_capital_sigma_counterexample:
  "lower (lit ''peter'') = CommandRegistry.wake_word example_registry
   \<and> has_wake_word example_registry (lit ''peter'' @ [CapitalSigma])
   \<and> remove_wake_word example_registry (lit ''peter'' @ [CapitalSigma]) = [FinalSigma]
   \<and> remove_wake_word example_registry (lit ''peter'' @ Latin (CHR '' '') # [CapitalSigma])
        = [SmallSigma]
   \<and> get_handler sigma_can_handle example_registry (lit ''peter'' @ [CapitalSigma]) = None
   \<and> get_handler sigma_can_handle example_registry
         (lit ''peter'' @ Latin (CHR '' '') # [CapitalSigma]) = Some H1"
  by (simp add: example_wake_word lower_peter sigma_has_wake_word sigma_remove_wake_word
        blank_sigma_has_wake_word blank_sigma_remove_wake_word get_handler_def
        example_commands sigma_can_handle_def)

section \<open>Registering and unregistering\<close>

text \<open>
  C8. In a registry whose handler sequence has no entry equal to \<open>h\<close>, \<open>register h\<close>
  followed by \<open>unregister h\<close> gives the registry back, same handlers in the same order,
  and \<open>unregister h\<close> alone changes nothing.
\<close>

theorem register_unregister_restores:
  assumes "h \<notin> set (commands r)"
  shows "unregister h (register h r) = r \<and> unregister h r = r"
  using assms by (simp add: unregister_def register_def remove1_append)

theorem register_unregister_restores_witness:
  "(3::nat) \<notin> set (commands \<lparr>commands = [1, 2], wake_word = lit ''peter''\<rparr>)
   \<and> unregister 3 (register 3 \<lparr>commands = [1, 2], wake_word = lit ''peter''\<rparr>)
       = \<lparr>commands = [1, 2::nat], wake_word = lit ''peter''\<rparr>
   \<and> unregister 3 \<lparr>commands = [1, 2::nat], wake_word = lit ''peter''\<rparr>
       = \<lparr>commands = [1, 2], wake_word = lit ''peter''\<rparr>"
proof -
  have h: "(3::nat) \<notin> set (commands \<lparr>commands = [1, 2], wake_word = lit ''peter''\<rparr>)"
    by simp
  from register_unregister_restores [OF h] h show ?thesis by simp
qed

section \<open>The registry's wake word\<close>

text \<open>
  C7, as the code has it. The constructor stores the lower-cased argument, without
  stripping it and without checking that it is not empty, and \<open>register\<close> and
  \<open>unregister\<close> leave it alone: in every state reached from \<open>CommandRegistry(w0)\<close>
  the wake word is \<open>w0.lower()\<close>, a lower-cased text.
\<close>

theorem wake_word_is_lowered_argument:
  assumes "reachable w0 r"
  shows "CommandRegistry.wake_word r = lower w0
         \<and> lower (CommandRegistry.wake_word r) = CommandRegistry.wake_word r
         \<and> CommandRegistry.wake_word (register h r) = CommandRegistry.wake_word r
         \<and> CommandRegistry.wake_word (unregister h r) = CommandRegistry.wake_word r"
  using assms
  by (simp add: reachable_wake_word lower_idem register_def unregister_def)

theorem wake_word_is_lowered_argument_witness:
  "reachable (lit ''PETER'') (unregister H1 (register H2 (register H1 (CommandRegistry_init (lit ''PETER'')))))
   \<and> CommandRegistry.wake_word
        (unregister H1 (register H2 (register H1 (CommandRegistry_init (lit ''PETER''))))) = lit ''peter''"
proof -
  have r: "reachable (lit ''PETER'')
             (unregister H1 (register H2 (register H1 (CommandRegistry_init (lit ''PETER'')))))"
    by (intro reachable_unregister reachable_register reachable_init)
  from wake_word_is_lowered_argument [OF r, of H1] lower_PETER r show ?thesis by simp
qed

text \<open>
  C7, as claimed, fails: built from the empty string the registry has an empty wake
  word, and built from \<open>" peter "\<close> it has a wake word that stripping changes.
\<close>

theorem wake_word_invariant_counterexample:
  "CommandRegistry.wake_word (CommandRegistry_init (lit '''') :: example_handler CommandRegistry) = []
   \<and> strip (CommandRegistry.wake_word
               (CommandRegistry_init (lit '' peter '') :: example_handler CommandRegistry))
       \<noteq> CommandRegistry.wake_word
             (CommandRegistry_init (lit '' peter '') :: example_handler CommandRegistry)"
  by (simp add: CommandRegistry_init_def lower_empty lower_padded strip_padded)

section \<open>Device records and shortcuts\<close>

text \<open>
  C6. Constructing a device raises a \<open>ConfigurationError\<close> exactly when one of name,
  device id, network address and key is the empty string, and returns the device with
  the five fields given exactly when all four are non-empty.
\<close>

theorem device_construction_fails_iff_empty_field:
  "((\<exists>e. SmartDevice_new n i a k t = Inl e \<and> exc_class e = ConfigurationError)
      \<longleftrightarrow> (n = [] \<or> i = [] \<or> a = [] \<or> k = []))
   \<and> (SmartDevice_new n i a k t
         = Inr \<lparr>name = n, device_id = i, ip_address = a, local_key = k, device_type = t\<rparr>
      \<longleftrightarrow> (n \<noteq> [] \<and> i \<noteq> [] \<and> a \<noteq> [] \<and> k \<noteq> []))"
  by (auto simp: SmartDevice_new_def SmartDevice_post_init_def raise_exc_def)

theorem device_construction_fails_iff_empty_field_witness:
  "SmartDevice_new (lit ''Smart Lamp'') (lit '''') (lit ''192.168.1.101'') (lit ''key'') (lit ''light'')
     = Inl (raise_exc ConfigurationError (lit ''All device fields are required''))
   \<and> SmartDevice_new (lit ''Smart Lamp'') (lit ''id'') (lit ''192.168.1.101'') (lit ''key'') (lit ''light'')
     = Inr \<lparr>name = lit ''Smart Lamp'', device_id = lit ''id'', ip_address = lit ''192.168.1.101'',
            local_key = lit ''key'', device_type = lit ''light''\<rparr>"
proof -
  note th = device_construction_fails_iff_empty_field
  from th [of "(lit ''Smart Lamp'')" "(lit ''id'')" "(lit ''192.168.1.101'')" "(lit ''key'')" "(lit ''light'')"]
  have ok: "SmartDevice_new (lit ''Smart Lamp'') (lit ''id'') (lit ''192.168.1.101'') (lit ''key'') (lit ''light'')
     = Inr \<lparr>name = lit ''Smart Lamp'', device_id = lit ''id'', ip_address = lit ''192.168.1.101'',
            local_key = lit ''key'', device_type = lit ''light''\<rparr>" by simp
  from th [of "(lit ''Smart Lamp'')" "(lit '''')" "(lit ''192.168.1.101'')" "(lit ''key'')" "(lit ''light'')"]
  obtain e where "SmartDevice_new (lit ''Smart Lamp'') (lit '''') (lit ''192.168.1.101'') (lit ''key'') (lit ''light'') = Inl e"
    by auto
  then have "SmartDevice_new (lit ''Smart Lamp'') (lit '''') (lit ''192.168.1.101'') (lit ''key'') (lit ''light'')
     = Inl (raise_exc ConfigurationError (lit ''All device fields are required''))"
    by (simp add: SmartDevice_new_def SmartDevice_post_init_def split: if_splits)
  with ok show ?thesis by (intro conjI)
qed



section \<open>Saving and reloading a configuration\<close>

text \<open>
  C4 at a configuration whose wake word is not the default. \<open>jarvis_config\<close> is valid
  and has the wake word \<open>jarvis\<close>; the dictionary \<open>to_dict\<close> builds for it has no
  \<open>wake_word\<close> entry in its settings, so \<open>from_dict\<close> fills in the default: the
  configuration that comes back has the wake word \<open>peter\<close> and is not the one saved.
  Devices, shortcuts and the other five settings do come back unchanged.
\<close>

theorem to_dict_drops_wake_word:
  "validate jarvis_config = Inr ()
   \<and> AssistantSettings.wake_word (settings jarvis_config) = lit ''jarvis''
   \<and> d_wake_word (get_default (d_settings (to_dict jarvis_config)) empty_settings_dict) = None
   \<and> from_dict te (to_dict jarvis_config)
        = Inr (jarvis_config\<lparr>settings :=
                 (settings jarvis_config)\<lparr>AssistantSettings.wake_word := lit ''peter''\<rparr>\<rparr>)
   \<and> from_dict te (to_dict jarvis_config) \<noteq> Inr jarvis_config"
proof -
  have w: "AssistantSettings.wake_word (settings jarvis_config) = lit ''jarvis''"
    by (simp add: jarvis_config_def)
  have n: "d_wake_word (get_default (d_settings (to_dict jarvis_config)) empty_settings_dict) = None"
    by (simp add: to_dict_def get_default_def)
  note rt = roundtrip_resets_wake_word [OF jarvis_valid, of te]
  have "jarvis_config\<lparr>settings :=
                 (settings jarvis_config)\<lparr>AssistantSettings.wake_word := lit ''peter''\<rparr>\<rparr> \<noteq> jarvis_config"
  proof
    assume "jarvis_config\<lparr>settings :=
                 (settings jarvis_config)\<lparr>AssistantSettings.wake_word := lit ''peter''\<rparr>\<rparr> = jarvis_config"
    then have "AssistantSettings.wake_word (settings (jarvis_config\<lparr>settings :=
                 (settings jarvis_config)\<lparr>AssistantSettings.wake_word := lit ''peter''\<rparr>\<rparr>))
               = AssistantSettings.wake_word (settings jarvis_config)"
      by (rule arg_cong)
    then have "(lit ''peter'') = AssistantSettings.wake_word (settings jarvis_config)" by simp
    with w show False by simp
  qed
  with rt have ne: "from_dict te (to_dict jarvis_config) \<noteq> Inr jarvis_config" by simp
  from jarvis_valid w n rt ne show ?thesis by (intro conjI)
qed

section \<open>One command in the orchestrator\<close>

text \<open>
  C9, as the code has it. When \<open>execute_command\<close> returns a value, or raises an
  exception that is an instance of \<open>Exception\<close>, \<open>_process_command_safely\<close> returns
  normally, with the command and its outcome in the log; the log entry of a failure
  contains the failure's message. An exception that is not an instance of \<open>Exception\<close>
  leaves the step, after the command has been logged. With the registry of this
  repository behind it and handlers that raise instances of \<open>Exception\<close> only, the
  step returns normally for every command. Whatever \<open>execute_command\<close> does, the
  listening loop goes on: started running, with a speech service that returns values or
  raises instances of \<open>Exception\<close>, it takes every outcome and is still running.
\<close>

theorem process_command_safely_catches_Exception:
  "(exec_cmd command w = (Inr v, w') \<longrightarrow>
      process_command_safely exec_cmd command w log =
        (None, w',
         log @ [(INFO, lit ''Processing command: '' @ command),
                (INFO, if v \<noteq> [] then lit ''Command executed successfully: '' @ v
                       else lit ''Command executed successfully'')]))
   \<and> (exec_cmd command w = (Inl e, w') \<and> is_Exception (exc_class e) \<longrightarrow>
      (\<exists>entry. process_command_safely exec_cmd command w log =
           (None, w', log @ [(INFO, lit ''Processing command: '' @ command), (ERROR, entry)])
         \<and> contains entry (message e)))
   \<and> (exec_cmd command w = (Inl e, w') \<and> \<not> is_Exception (exc_class e) \<longrightarrow>
      process_command_safely exec_cmd command w log =
        (Some e, w', log @ [(INFO, lit ''Processing command: '' @ command)]))
   \<and> ((\<forall>h s c v e v'. ex h s c v = (Inl e, v') \<longrightarrow> is_Exception (exc_class e)) \<longrightarrow>
      fst (process_command_safely (registry_call ch ex r) command w log) = None)
   \<and> (running a \<and> list_all value_or_Exception heard \<longrightarrow>
      still_listening (run_main_loop exec_cmd heard a))"
proof (intro conjI impI)
  assume "exec_cmd command w = (Inr v, w')"
  then show "process_command_safely exec_cmd command w log =
        (None, w',
         log @ [(INFO, lit ''Processing command: '' @ command),
                (INFO, if v \<noteq> [] then lit ''Command executed successfully: '' @ v
                       else lit ''Command executed successfully'')])"
    by (rule process_command_safely_value)
next
  assume "exec_cmd command w = (Inl e, w') \<and> is_Exception (exc_class e)"
  then show "\<exists>entry. process_command_safely exec_cmd command w log =
           (None, w', log @ [(INFO, lit ''Processing command: '' @ command), (ERROR, entry)])
         \<and> contains entry (message e)"
    by (intro process_command_safely_Exception) simp_all
next
  assume "exec_cmd command w = (Inl e, w') \<and> \<not> is_Exception (exc_class e)"
  then show "process_command_safely exec_cmd command w log =
        (Some e, w', log @ [(INFO, lit ''Processing command: '' @ command)])"
    by (intro process_command_safely_escapes) simp_all
next
  assume "\<forall>h s c v e v'. ex h s c v = (Inl e, v') \<longrightarrow> is_Exception (exc_class e)"
  then show "fst (process_command_safely (registry_call ch ex r) command w log) = None"
    by (rule process_command_safely_registry)
next
  assume "running a \<and> list_all value_or_Exception heard"
  then show "still_listening (run_main_loop exec_cmd heard a)"
    by (simp add: run_main_loop_def main_loop_still_listening)
qed

theorem process_command_safely_catches_Exception_witness:
  "registry_call example_can_handle example_execute lamp_registry
       (lit ''peter nyalakan lampu nyala'') []
     = (Inr (lit ''Lamp on''), [(H2, lit ''nyalakan lampu nyala'')])
   \<and> process_command_safely (registry_call example_can_handle example_execute lamp_registry)
       (lit ''peter nyalakan lampu nyala'') [] []
     = (None, [(H2, lit ''nyalakan lampu nyala'')],
        [(INFO, lit ''Processing command: peter nyalakan lampu nyala''),
         (INFO, lit ''Command executed successfully: Lamp on'')])
   \<and> registry_call example_can_handle example_execute example_registry
       (lit ''peter nyalakan lampu nyala'') []
     = (Inl (raise_exc CommandExecutionError (lit ''Failed to execute command: Device not found'')),
        [(H1, lit ''nyalakan lampu nyala'')])
   \<and> is_Exception (exc_class
         (raise_exc CommandExecutionError (lit ''Failed to execute command: Device not found'')))
   \<and> fst (process_command_safely (registry_call example_can_handle example_execute example_registry)
            (lit ''peter nyalakan lampu nyala'') [] []) = None
   \<and> registry_call example_can_handle exiting_execute example_registry
       (lit ''peter nyalakan lampu nyala'') []
     = (Inl (raise_exc SystemExit []), [(H1, lit ''nyalakan lampu nyala'')])
   \<and> \<not> is_Exception (exc_class (raise_exc SystemExit []))
   \<and> process_command_safely (registry_call example_can_handle exiting_execute example_registry)
       (lit ''peter nyalakan lampu nyala'') [] []
     = (Some (raise_exc SystemExit []), [(H1, lit ''nyalakan lampu nyala'')],
        [(INFO, lit ''Processing command: peter nyalakan lampu nyala'')])
   \<and> fst (process_command_safely (registry_call example_can_handle example_execute example_registry)
            (lit ''buka youtube'') [] []) = None
   \<and> running \<lparr>running = True, world = [] :: (example_handler \<times> str) list, logged = []\<rparr>
   \<and> list_all value_or_Exception
        [Inr (Some (lit ''peter nyalakan lampu nyala'')), Inr None,
         Inl (raise_exc SpeechRecognitionError (lit ''Speech recognition service error''))]
   \<and> still_listening
        (run_main_loop (registry_call example_can_handle exiting_execute example_registry)
           [Inr (Some (lit ''peter nyalakan lampu nyala'')), Inr None,
            Inl (raise_exc SpeechRecognitionError (lit ''Speech recognition service error''))]
           \<lparr>running = True, world = [], logged = []\<rparr>)"
proof -
  let ?t = "lit ''peter nyalakan lampu nyala''"
  let ?lamp = "registry_call example_can_handle example_execute lamp_registry"
  let ?dev = "registry_call example_can_handle example_execute example_registry"
  let ?exit = "registry_call example_can_handle exiting_execute example_registry"
  let ?ce = "raise_exc CommandExecutionError (lit ''Failed to execute command: Device not found'')"
  let ?se = "raise_exc SystemExit []"
  let ?heard = "[Inr (Some ?t), Inr None,
                 Inl (raise_exc SpeechRecognitionError (lit ''Speech recognition service error''))]"
  let ?a = "\<lparr>running = True, world = [] :: (example_handler \<times> str) list, logged = []\<rparr>"
  note th = process_command_safely_catches_Exception
  note th1 = th [where exec_cmd = ?lamp and command = ?t and w = "[]" and log = "[]"
                   and v = "lit ''Lamp on''" and w' = "[(H2, lit ''nyalakan lampu nyala'')]",
                 THEN conjunct1]
  note th2 = th [where exec_cmd = ?dev and command = ?t and w = "[]" and log = "[]"
                   and e = ?ce and w' = "[(H1, lit ''nyalakan lampu nyala'')]",
                 THEN conjunct2, THEN conjunct1]
  note th3 = th [where exec_cmd = ?exit and command = ?t and w = "[]" and log = "[]"
                   and e = ?se and w' = "[(H1, lit ''nyalakan lampu nyala'')]",
                 THEN conjunct2, THEN conjunct2, THEN conjunct1]
  note th4 = th [where ex = example_execute and ch = example_can_handle
                   and r = example_registry and command = "lit ''buka youtube''"
                   and w = "[]" and log = "[]",
                 THEN conjunct2, THEN conjunct2, THEN conjunct2, THEN conjunct1]
  note th5 = th [where exec_cmd = ?exit and heard = ?heard and a = ?a,
                 THEN conjunct2, THEN conjunct2, THEN conjunct2, THEN conjunct2]
  from mp [OF th1 lamp_registry_call]
  have c1: "process_command_safely ?lamp ?t [] []
     = (None, [(H2, lit ''nyalakan lampu nyala'')],
        [(INFO, lit ''Processing command: peter nyalakan lampu nyala''),
         (INFO, lit ''Command executed successfully: Lamp on'')])"
    by simp
  have i2: "is_Exception (exc_class ?ce)" by (simp add: raise_exc_def)
  from mp [OF th2 conjI [OF example_registry_call i2]]
  have c2: "fst (process_command_safely ?dev ?t [] []) = None" by auto
  have i3: "\<not> is_Exception (exc_class ?se)" by (simp add: raise_exc_def)
  from mp [OF th3 conjI [OF exiting_registry_call i3]]
  have c3: "process_command_safely ?exit ?t [] []
     = (Some ?se, [(H1, lit ''nyalakan lampu nyala'')],
        [(INFO, lit ''Processing command: peter nyalakan lampu nyala'')])"
    by simp
  from mp [OF th4 example_execute_Exception]
  have c4: "fst (process_command_safely ?dev (lit ''buka youtube'') [] []) = None" .
  have r5: "running ?a" by simp
  have l5: "list_all value_or_Exception ?heard" by (simp add: raise_exc_def)
  from mp [OF th5 conjI [OF r5 l5]]
  have c5: "still_listening (run_main_loop ?exit ?heard ?a)" .
  from lamp_registry_call c1 example_registry_call i2 c2 exiting_registry_call i3 c3 c4 r5 l5 c5
  show ?thesis by (intro conjI)
qed

text \<open>
  C9, as claimed for any exception, fails: a handler that ends with \<open>sys.exit()\<close>
  raises \<open>SystemExit\<close>, which passes the registry and leaves the step uncaught.
\<close>

theorem process_command_safely_SystemExit_counterexample:
  "process_command_safely (registry_call example_can_handle exiting_execute example_registry)
       (lit ''peter nyalakan lampu nyala'') [] []
     = (Some (raise_exc SystemExit []), [(H1, lit ''nyalakan lampu nyala'')],
        [(INFO, lit ''Processing command: peter nyalakan lampu nyala'')])"
  by (simp add: process_command_safely_def exiting_registry_call raise_exc_def)

end
